theory Spec2Isabelle
  imports
    Main
    "HOL-Library.Multiset"
    "HOL-Library.AList"
    "HOL-Library.Char_ord"
    "HOL-Library.List_Lexorder"
    "HOL-Library.Product_Lexorder"
begin

section \<open>offkey: threshold classification, dedup keys, tabulation and flattening\<close>

text \<open>
  A shallow embedding of \<^verbatim>\<open>offkey/cli.py\<close>, \<^verbatim>\<open>offkey/metrics.py\<close> and
  \<^verbatim>\<open>offkey/util.py\<close>.

  Python numbers (the metric value and the thresholds) are modelled by any linearly ordered
  type \<open>'n\<close>: Python's \<open>int\<close>, or its floats other than NaN.  The text that an f-string or
  \<^verbatim>\<open>json.dumps\<close> prints for a number is the parameter \<open>fmt\<close>; for Python's \<open>int\<close> it is
  \<open>str_int\<close> below.
\<close>

datatype error = AssertionError | TypeError | IndexError | KeyError | AttributeError

subsection \<open>Rendering of Python integers\<close>

definition digit_char :: "nat \<Rightarrow> char" where
  "digit_char d = ''0123456789'' ! d"

fun str_nat :: "nat \<Rightarrow> string" where
  "str_nat n = (if n < 10 then [digit_char n] else str_nat (n div 10) @ [digit_char (n mod 10)])"

declare str_nat.simps [simp del]

definition str_int :: "int \<Rightarrow> string" where
  "str_int i = (if i < 0 then CHR ''-'' # str_nat (nat (- i)) else str_nat (nat i))"

subsection \<open>The threshold evaluator (\<^verbatim>\<open>cli.py\<close>, lines 131 to 170)\<close>

text \<open>\<^verbatim>\<open>all(x < y for x, y in zip(L, L[1:]))\<close>; the slice \<^verbatim>\<open>L[1:]\<close> of an empty list is empty, as
  \<open>tl []\<close> is.\<close>

definition strictly_increasing :: "'n::linorder list \<Rightarrow> bool" where
  "strictly_increasing L = list_all (\<lambda>(x, y). x < y) (zip L (tl L))"

definition strictly_decreasing :: "'n::linorder list \<Rightarrow> bool" where
  "strictly_decreasing L = list_all (\<lambda>(x, y). x > y) (zip L (tl L))"

definition LEVELS :: "string list" where
  "LEVELS = [''info'', ''warning'', ''error'', ''critical'']"

text \<open>The first loop: the levels whose threshold is defined (\<^verbatim>\<open>thresh_config.get(level)\<close> is not
  \<^verbatim>\<open>None\<close>), in the order of \<open>LEVELS\<close>.  The threshold configuration is the dictionary's numeric
  part, a map from level names to thresholds; its \<^verbatim>\<open>message\<close> entry is never read here.\<close>

definition thresh_list :: "(string \<rightharpoonup> 'n) \<Rightarrow> (string \<times> 'n) list" where
  "thresh_list thresh_config =
     concat (map (\<lambda>level. case thresh_config level of
                             None \<Rightarrow> []
                           | Some thresh \<Rightarrow> [(level, thresh)]) LEVELS)"

text \<open>The second loop, with its \<^verbatim>\<open>break\<close>; the accumulator is the pair \<^verbatim>\<open>severity, ref\<close>, which the
  source sets together.\<close>

fun walk :: "bool \<Rightarrow> 'n::linorder \<Rightarrow> (string \<times> 'n) list \<Rightarrow> (string \<times> 'n) option
             \<Rightarrow> (string \<times> 'n) option" where
  "walk si val [] acc = acc"
| "walk si val ((level, thresh) # rest) acc =
     (if (si \<and> val < thresh) \<or> (\<not> si \<and> val > thresh) then acc
      else walk si val rest (Some (level, thresh)))"

text \<open>\<^verbatim>\<open>_check_val_against_thresh\<close> (the name without its leading underscore).\<close>

definition check_val_against_thresh ::
  "('n \<Rightarrow> string) \<Rightarrow> 'n::linorder \<Rightarrow> (string \<rightharpoonup> 'n) \<Rightarrow> error + (string option \<times> string option)" where
  "check_val_against_thresh fmt val thresh_config =
     (let tl0 = thresh_list thresh_config in
      if tl0 = [] then Inr (None, None)
      else
        let tvs = map snd tl0;
            si = strictly_increasing tvs;
            sd = strictly_decreasing tvs
        in if \<not> (si \<or> sd) then Inl AssertionError
           else (case walk si val tl0 None of
                   None \<Rightarrow> Inr (None, None)
                 | Some (severity, rf) \<Rightarrow>
                     Inr (Some severity,
                          Some (if si then fmt val @ '' >= '' @ fmt rf
                                else fmt val @ '' <= '' @ fmt rf))))"

text \<open>A ladder with thresholds at all four levels, as every entry of \<^verbatim>\<open>CONFIGS\<close> has.\<close>

definition ladder4 :: "'n \<Rightarrow> 'n \<Rightarrow> 'n \<Rightarrow> 'n \<Rightarrow> (string \<rightharpoonup> 'n)" where
  "ladder4 i w e c =
     [''info'' \<mapsto> i, ''warning'' \<mapsto> w, ''error'' \<mapsto> e, ''critical'' \<mapsto> c]"

text \<open>The order of the severities, "none" below all: the position of a level in \<open>LEVELS\<close>.\<close>

definition level_rank :: "string \<Rightarrow> nat" where
  "level_rank level =
     (if level = ''info'' then 1 else if level = ''warning'' then 2
      else if level = ''error'' then 3 else if level = ''critical'' then 4 else 0)"

definition severity_rank :: "string option \<Rightarrow> nat" where
  "severity_rank s = (case s of None \<Rightarrow> 0 | Some level \<Rightarrow> level_rank level)"

text \<open>The descending walk in the words of the specification: the levels are taken while the
  value does not exceed the threshold, and the last one taken is the match.\<close>

definition descending_match :: "'n::linorder \<Rightarrow> (string \<times> 'n) list \<Rightarrow> (string \<times> 'n) option" where
  "descending_match val xs =
     (case takeWhile (\<lambda>(level, thresh). \<not> val > thresh) xs of
        [] \<Rightarrow> None
      | pre \<Rightarrow> Some (last pre))"

subsection \<open>The flattener (\<^verbatim>\<open>util.py\<close>, lines 86 to 99)\<close>








subsection \<open>Python values, their order and \<^verbatim>\<open>sorted\<close>\<close>

text \<open>
  The values met as axis coordinates and in \<^verbatim>\<open>custom_details\<close>: \<^verbatim>\<open>None\<close>, a text, or a number.
  A text is a list of characters with code points 0 to 255.
\<close>

datatype 'n pyval = PyNone | PyStr string | PyNum 'n

text \<open>
  The order \<^verbatim>\<open>sorted\<close> uses on values of one kind: texts by code point, numbers by size.
  Python refuses to order values of two kinds, or \<^verbatim>\<open>None\<close> with anything (\<open>sorted_items\<close>
  below raises there), so where the order below puts them is never used: \<^verbatim>\<open>None\<close> first, then
  numbers, then texts.
\<close>

instantiation pyval :: (linorder) linorder
begin

fun less_eq_pyval :: "'a pyval \<Rightarrow> 'a pyval \<Rightarrow> bool" where
  "less_eq_pyval PyNone y = True"
| "less_eq_pyval (PyNum a) PyNone = False"
| "less_eq_pyval (PyNum a) (PyNum b) = (a \<le> b)"
| "less_eq_pyval (PyNum a) (PyStr t) = True"
| "less_eq_pyval (PyStr s) (PyStr t) = (s \<le> t)"
| "less_eq_pyval (PyStr s) y = False"

definition less_pyval :: "'a pyval \<Rightarrow> 'a pyval \<Rightarrow> bool" where
  "less_pyval x y = (x \<le> y \<and> \<not> y \<le> x)"

instance
proof
  fix x y z :: "'a pyval"
  show "(x < y) = (x \<le> y \<and> \<not> y \<le> x)"
    by (simp add: less_pyval_def)
  show "x \<le> x"
    by (cases x) simp_all
  show "x \<le> y \<Longrightarrow> y \<le> z \<Longrightarrow> x \<le> z"
    by (cases x; cases y; cases z) auto
  show "x \<le> y \<Longrightarrow> y \<le> x \<Longrightarrow> x = y"
    by (cases x; cases y) auto
  show "x \<le> y \<or> y \<le> x"
    by (cases x; cases y) auto
qed

end

definition kind :: "'n pyval \<Rightarrow> nat" where
  "kind v = (case v of PyNone \<Rightarrow> 0 | PyStr s \<Rightarrow> 1 | PyNum n \<Rightarrow> 2)"

text \<open>
  Two pairs \<^verbatim>\<open>(name, value)\<close> that Python can order: tuples are compared at the first position
  where they differ, so the values are compared only under equal names, and then they must be
  of one kind and not \<^verbatim>\<open>None\<close>.
\<close>

definition comparable :: "string \<times> 'n pyval \<Rightarrow> string \<times> 'n pyval \<Rightarrow> bool" where
  "comparable a b =
     (if fst a = fst b \<and> snd a \<noteq> snd b
      then kind (snd a) = kind (snd b) \<and> snd a \<noteq> PyNone
      else True)"

text \<open>
  \<^verbatim>\<open>sorted(all_items)\<close>: a comparison sort has to compare, directly, any two items next to each
  other in the result, so it raises \<^verbatim>\<open>TypeError\<close> exactly when two of the items cannot be ordered.
\<close>

definition sorted_items ::
  "(string \<times> 'n::linorder pyval) list \<Rightarrow> error + (string \<times> 'n pyval) list" where
  "sorted_items items =
     (if list_all (\<lambda>a. list_all (comparable a) items) items then Inr (sort items)
      else Inl TypeError)"

subsection \<open>Library functions: \<^verbatim>\<open>str.join\<close>, \<^verbatim>\<open>json.dumps\<close>, \<^verbatim>\<open>sha256\<close>, \<^verbatim>\<open>b64encode\<close>\<close>

text \<open>\<^verbatim>\<open>sep.join(xs)\<close>.\<close>

fun join :: "string \<Rightarrow> string list \<Rightarrow> string" where
  "join sep [] = []"
| "join sep [x] = x"
| "join sep (x # y # zs) = x @ sep @ join sep (y # zs)"

text \<open>
  \<^verbatim>\<open>json.dumps\<close> of a list of pairs, with its defaults: \<^verbatim>\<open>ensure_ascii\<close>, the separators
  \<^verbatim>\<open>", "\<close>, a tuple written as an array, \<^verbatim>\<open>None\<close> as \<^verbatim>\<open>null\<close>.  In a text, the quote and the
  backslash are escaped, the five short escapes are used, and every other character outside
  the printable ASCII range is written \<^verbatim>\<open>\u00XX\<close>.
\<close>

definition hex_digit :: "nat \<Rightarrow> char" where
  "hex_digit d = ''0123456789abcdef'' ! d"

definition json_escape :: "char \<Rightarrow> string" where
  "json_escape c =
     (if c = CHR 0x22 then [CHR 0x5C, CHR 0x22]
      else if c = CHR 0x5C then [CHR 0x5C, CHR 0x5C]
      else if c = CHR 0x0A then [CHR 0x5C, CHR ''n'']
      else if c = CHR 0x0D then [CHR 0x5C, CHR ''r'']
      else if c = CHR 0x09 then [CHR 0x5C, CHR ''t'']
      else if c = CHR 0x08 then [CHR 0x5C, CHR ''b'']
      else if c = CHR 0x0C then [CHR 0x5C, CHR ''f'']
      else if (of_char c :: nat) < 32 \<or> (of_char c :: nat) > 126
      then [CHR 0x5C, CHR ''u'', CHR ''0'', CHR ''0'',
            hex_digit (of_char c div 16), hex_digit (of_char c mod 16)]
      else [c])"

definition json_string :: "string \<Rightarrow> string" where
  "json_string s = [CHR 0x22] @ concat (map json_escape s) @ [CHR 0x22]"

definition json_value :: "('n \<Rightarrow> string) \<Rightarrow> 'n pyval \<Rightarrow> string" where
  "json_value fmt v =
     (case v of PyNone \<Rightarrow> ''null'' | PyStr s \<Rightarrow> json_string s | PyNum n \<Rightarrow> fmt n)"

definition json_dumps :: "('n \<Rightarrow> string) \<Rightarrow> (string \<times> 'n pyval) list \<Rightarrow> string" where
  "json_dumps fmt items =
     ''['' @ join '', ''
               (map (\<lambda>(name, v). ''['' @ json_string name @ '', '' @ json_value fmt v @ '']'')
                  items) @ '']''"

text \<open>
  \<^verbatim>\<open>hashlib.sha256(data).digest()\<close>, after FIPS 180-4.  Bytes and 32-bit words are integers;
  the additions are taken modulo \<open>2 ^ 32\<close>, rotations and shifts are written with \<open>div\<close> and
  \<open>mod\<close>.
\<close>

definition add32 :: "int \<Rightarrow> int \<Rightarrow> int" where
  "add32 x y = (x + y) mod 4294967296"

definition rotr :: "nat \<Rightarrow> int \<Rightarrow> int" where
  "rotr n x = x div 2 ^ n + (x mod 2 ^ n) * 2 ^ (32 - n)"

definition shr :: "nat \<Rightarrow> int \<Rightarrow> int" where
  "shr n x = x div 2 ^ n"

definition xor3 :: "int \<Rightarrow> int \<Rightarrow> int \<Rightarrow> int" where
  "xor3 x y z = xor (xor x y) z"

definition Ch :: "int \<Rightarrow> int \<Rightarrow> int \<Rightarrow> int" where
  "Ch x y z = xor (and x y) (and (4294967295 - x) z)"

definition Maj :: "int \<Rightarrow> int \<Rightarrow> int \<Rightarrow> int" where
  "Maj x y z = xor3 (and x y) (and x z) (and y z)"

definition Sigma0 :: "int \<Rightarrow> int" where
  "Sigma0 x = xor3 (rotr 2 x) (rotr 13 x) (rotr 22 x)"

definition Sigma1 :: "int \<Rightarrow> int" where
  "Sigma1 x = xor3 (rotr 6 x) (rotr 11 x) (rotr 25 x)"

definition sigma0 :: "int \<Rightarrow> int" where
  "sigma0 x = xor3 (rotr 7 x) (rotr 18 x) (shr 3 x)"

definition sigma1 :: "int \<Rightarrow> int" where
  "sigma1 x = xor3 (rotr 17 x) (rotr 19 x) (shr 10 x)"

text \<open>The round constants and the initial hash value, in decimal.\<close>

definition K256 :: "int list" where
  "K256 =
    [1116352408, 1899447441, 3049323471, 3921009573, 961987163, 1508970993, 2453635748, 2870763221,
     3624381080, 310598401, 607225278, 1426881987, 1925078388, 2162078206, 2614888103, 3248222580,
     3835390401, 4022224774, 264347078, 604807628, 770255983, 1249150122, 1555081692, 1996064986,
     2554220882, 2821834349, 2952996808, 3210313671, 3336571891, 3584528711, 113926993, 338241895,
     666307205, 773529912, 1294757372, 1396182291, 1695183700, 1986661051, 2177026350, 2456956037,
     2730485921, 2820302411, 3259730800, 3345764771, 3516065817, 3600352804, 4094571909, 275423344,
     430227734, 506948616, 659060556, 883997877, 958139571, 1322822218, 1537002063, 1747873779,
     1955562222, 2024104815, 2227730452, 2361852424, 2428436474, 2756734187, 3204031479, 3329325298]"

definition H256 :: "int list" where
  "H256 = [1779033703, 3144134277, 1013904242, 2773480762,
           1359893119, 2600822924, 528734635, 1541459225]"

text \<open>The message schedule, the newest word first: \<open>schedule 48\<close> extends the 16 words of a block
  to 64.\<close>

fun schedule :: "nat \<Rightarrow> int list \<Rightarrow> int list" where
  "schedule 0 ws = ws"
| "schedule (Suc n) ws =
     schedule n (add32 (add32 (sigma1 (ws ! 1)) (ws ! 6)) (add32 (sigma0 (ws ! 14)) (ws ! 15)) # ws)"

text \<open>One round on the eight working variables \<open>a\<close> to \<open>h\<close>, and the compression of a block.\<close>

definition shift_in :: "int list \<Rightarrow> int \<Rightarrow> int \<Rightarrow> int list" where
  "shift_in s t1 t2 =
     [add32 t1 t2, s ! 0, s ! 1, s ! 2, add32 (s ! 3) t1, s ! 4, s ! 5, s ! 6]"

definition round :: "int list \<Rightarrow> int \<times> int \<Rightarrow> int list" where
  "round s kw =
     shift_in s
       (add32 (add32 (add32 (s ! 7) (Sigma1 (s ! 4))) (Ch (s ! 4) (s ! 5) (s ! 6)))
              (add32 (fst kw) (snd kw)))
       (add32 (Sigma0 (s ! 0)) (Maj (s ! 0) (s ! 1) (s ! 2)))"

definition compress :: "int list \<Rightarrow> int list \<Rightarrow> int list" where
  "compress h block =
     map2 add32 h (foldl round h (zip K256 (rev (schedule 48 (rev block)))))"

text \<open>Big-endian words and bytes, the blocks of a message, and the padding.\<close>

fun be_words :: "int list \<Rightarrow> int list" where
  "be_words (a # b # c # d # bs) = (((a * 256 + b) * 256 + c) * 256 + d) # be_words bs"
| "be_words bs = []"

fun chunks :: "nat \<Rightarrow> nat \<Rightarrow> 'a list \<Rightarrow> 'a list list" where
  "chunks 0 k xs = []"
| "chunks (Suc n) k xs = take k xs # chunks n k (drop k xs)"

definition be_bytes :: "nat \<Rightarrow> int \<Rightarrow> int list" where
  "be_bytes n x = map (\<lambda>i. (x div 256 ^ i) mod 256) (rev [0..<n])"

definition pad :: "int list \<Rightarrow> int list" where
  "pad bs = bs @ [128] @ replicate ((55 + 64 - length bs mod 64) mod 64) 0
              @ be_bytes 8 (8 * int (length bs))"

definition sha256 :: "int list \<Rightarrow> int list" where
  "sha256 bs =
     concat (map (be_bytes 4)
       (foldl compress H256 (chunks (length (pad bs) div 64) 16 (be_words (pad bs)))))"

text \<open>\<^verbatim>\<open>base64.b64encode\<close>: the standard alphabet of RFC 4648, with \<^verbatim>\<open>=\<close> padding.  (The final
  \<^verbatim>\<open>.decode()\<close> reads these ASCII bytes as text.)\<close>

definition b64_alphabet :: string where
  "b64_alphabet = ''ABCDEFGHIJKLMNOPQRSTUVWXYZabcdefghijklmnopqrstuvwxyz0123456789+/''"

fun b64encode :: "int list \<Rightarrow> string" where
  "b64encode (a # b # c # bs) =
     [b64_alphabet ! nat (a div 4),
      b64_alphabet ! nat ((a mod 4) * 16 + b div 16),
      b64_alphabet ! nat ((b mod 16) * 4 + c div 64),
      b64_alphabet ! nat (c mod 64)] @ b64encode bs"
| "b64encode [a, b] =
     [b64_alphabet ! nat (a div 4),
      b64_alphabet ! nat ((a mod 4) * 16 + b div 16),
      b64_alphabet ! nat ((b mod 16) * 4),
      CHR ''='']"
| "b64encode [a] =
     [b64_alphabet ! nat (a div 4),
      b64_alphabet ! nat ((a mod 4) * 16),
      CHR ''='', CHR ''='']"
| "b64encode [] = []"

text \<open>\<^verbatim>\<open>str.encode()\<close> on the output of \<^verbatim>\<open>json.dumps\<close>, which is ASCII: one byte for each
  character.\<close>

definition encode :: "string \<Rightarrow> int list" where
  "encode s = map of_char s"

text \<open>\<^verbatim>\<open>time.strftime('%Y-%m-%dT%H:%M:%SZ', t)\<close> on the broken-down time \<open>t\<close> that \<^verbatim>\<open>time.gmtime()\<close>
  returns: the year as it is, the other fields in two digits.\<close>

record struct_time =
  tm_year :: nat
  tm_mon :: nat
  tm_mday :: nat
  tm_hour :: nat
  tm_min :: nat
  tm_sec :: nat

definition pad2 :: "nat \<Rightarrow> string" where
  "pad2 n = (if n < 10 then CHR ''0'' # str_nat n else str_nat n)"

definition strftime_utc :: "struct_time \<Rightarrow> string" where
  "strftime_utc t =
     str_nat (tm_year t) @ ''-'' @ pad2 (tm_mon t) @ ''-'' @ pad2 (tm_mday t) @ ''T''
       @ pad2 (tm_hour t) @ '':'' @ pad2 (tm_min t) @ '':'' @ pad2 (tm_sec t) @ ''Z''"

subsection \<open>The body of the loop in \<^verbatim>\<open>main\<close> (\<^verbatim>\<open>cli.py\<close>, lines 197 to 235)\<close>

definition HOST_AXES :: "string list" where
  "HOST_AXES = [''cloud.region'', ''cloud.instance.id'']"

text \<open>The local function \<^verbatim>\<open>full\<close> of \<^verbatim>\<open>main\<close> (and of \<^verbatim>\<open>build_bucket_search\<close>), with the
  \<^verbatim>\<open>module\<close> and \<^verbatim>\<open>metricset\<close> it closes over.\<close>

definition full :: "string \<Rightarrow> string \<Rightarrow> string \<Rightarrow> string" where
  "full module metricset s = (if take 1 s = ''.'' then module @ ''.'' @ metricset @ s else s)"

text \<open>\<^verbatim>\<open>str(axis)\<close>.\<close>

definition py_str :: "('n \<Rightarrow> string) \<Rightarrow> 'n pyval \<Rightarrow> string" where
  "py_str fmt v = (case v of PyNone \<Rightarrow> ''None'' | PyStr s \<Rightarrow> s | PyNum n \<Rightarrow> fmt n)"

text \<open>
  A \<^verbatim>\<open>zip\<close> object is an iterator: it yields each of its pairs once.  The model of an iterator
  is the list of the pairs it has yet to yield; a consumer that runs it to its end (\<^verbatim>\<open>sorted\<close>,
  \<^verbatim>\<open>dict.update\<close>) gets those pairs and leaves it exhausted.
\<close>

type_synonym 'a iterator = "'a list"

definition consume :: "'a iterator \<Rightarrow> 'a list \<times> 'a iterator" where
  "consume it = (it, [])"

text \<open>\<^verbatim>\<open>d.update(pairs)\<close>: the pairs are stored in order, a later one replaces an earlier one.\<close>

definition dict_update :: "('k \<rightharpoonup> 'v) \<Rightarrow> ('k \<times> 'v) list \<Rightarrow> ('k \<rightharpoonup> 'v)" where
  "dict_update d items = fold (\<lambda>(k, v) m. m(k \<mapsto> v)) items d"

text \<open>An entry of \<^verbatim>\<open>config['metrics']\<close>: the thresholds of the four levels, and the message.\<close>

record 'n metric_config =
  thresholds :: "string \<rightharpoonup> 'n"
  message :: "string option"

text \<open>The event: \<^verbatim>\<open>body\<close> and, in a trigger event, its \<^verbatim>\<open>payload\<close> (whose field \<^verbatim>\<open>class\<close> is
  \<open>event_class\<close> here).\<close>

record 'n payload =
  summary :: string
  source :: string
  severity :: string
  timestamp :: string
  component :: string
  event_class :: string
  custom_details :: "string \<rightharpoonup> 'n pyval"

record 'n event_body =
  dedup_key :: string
  event_action :: string
  payload :: "'n payload option"

text \<open>Lines 208 to 213, on the pairs that \<^verbatim>\<open>chain\<close> draws from the two iterators and the
  metric's pair: the dedup key.\<close>

definition key_of_items ::
  "('n \<Rightarrow> string) \<Rightarrow> (string \<times> 'n::linorder pyval) list \<Rightarrow> error + string" where
  "key_of_items fmt items =
     (case sorted_items items of
        Inl e \<Rightarrow> Inl e
      | Inr all_items \<Rightarrow> Inr (b64encode (sha256 (encode (json_dumps fmt all_items)))))"

text \<open>Lines 218 to 234: the payload of a trigger event.  The two iterators arrive in the state
  the sort has left them in.\<close>

definition trigger_payload ::
  "('n \<Rightarrow> string) \<Rightarrow> struct_time \<Rightarrow> (string \<times> 'n pyval) iterator \<Rightarrow> (string \<times> 'n pyval) iterator
     \<Rightarrow> 'n pyval list \<Rightarrow> 'n pyval list \<Rightarrow> string \<Rightarrow> 'n metric_config \<Rightarrow> 'n
     \<Rightarrow> string \<Rightarrow> string option \<Rightarrow> 'n payload" where
  "trigger_payload fmt gmtime host_axes_items metricset_axes_items host_axes metricset_axes
       full_metric_spec metric_config v sev diag =
     (let now = strftime_utc gmtime;
          custom_details = Map.empty;
          (from_host, host_axes_items) = consume host_axes_items;
          custom_details = dict_update custom_details from_host;
          (from_metricset, metricset_axes_items) = consume metricset_axes_items;
          custom_details = dict_update custom_details from_metricset;
          custom_details = custom_details(full_metric_spec \<mapsto> PyNum v);
          source = join ''/'' (map (py_str fmt) host_axes);
          component = join ''/'' (map (py_str fmt) metricset_axes);
          message = (case message metric_config of
                       None \<Rightarrow> ''Metric out of range'' | Some m \<Rightarrow> m)
      in \<lparr>summary = message @ '': '' @ full_metric_spec @ '' ''
                       @ (case diag of None \<Rightarrow> ''None'' | Some d \<Rightarrow> d),
          source = source,
          severity = sev,
          timestamp = now,
          component = component,
          event_class = message,
          custom_details = custom_details\<rparr>)"

text \<open>
  The loop body for one leaf \<^verbatim>\<open>(k, v)\<close> of the flattened table, up to the event that is
  posted.  \<open>gmtime\<close> is what \<^verbatim>\<open>time.gmtime()\<close> returns when the event is built; a path \<open>k\<close> holds
  the keys of the nested dictionaries, its last one the metric specification.
\<close>

definition main_leaf ::
  "('n \<Rightarrow> string) \<Rightarrow> struct_time \<Rightarrow> string \<Rightarrow> string \<Rightarrow> string list
     \<Rightarrow> (string \<rightharpoonup> 'n metric_config) \<Rightarrow> 'n pyval list \<Rightarrow> 'n::linorder
     \<Rightarrow> error + 'n event_body" where
  "main_leaf fmt gmtime module metricset axes metric_configs k v =
     (if length k < length HOST_AXES + 1 then Inl AssertionError
      else
        let host_axes = take (length HOST_AXES) k;
            metricset_axes = butlast (drop (length HOST_AXES) k)
        in case last k of
             PyStr metric_spec \<Rightarrow>
               (let full_metric_spec = full module metricset metric_spec in
                if length axes \<noteq> length metricset_axes then Inl AssertionError
                else
                  case metric_configs metric_spec of
                    None \<Rightarrow> Inl KeyError
                  | Some metric_config \<Rightarrow>
                      (case check_val_against_thresh fmt v (thresholds metric_config) of
                         Inl e \<Rightarrow> Inl e
                       | Inr (sev, diag) \<Rightarrow>
                           (let host_axes_items =
                                  zip (map (full module metricset) HOST_AXES) host_axes;
                                metricset_axes_items =
                                  zip (map (full module metricset) axes) metricset_axes;
                                (from_host, host_axes_items) = consume host_axes_items;
                                (from_metricset, metricset_axes_items) =
                                  consume metricset_axes_items
                            in case key_of_items fmt
                                      (from_host @ from_metricset @ [(full_metric_spec, PyNone)]) of
                                 Inl e \<Rightarrow> Inl e
                               | Inr key \<Rightarrow>
                                   (case sev of
                                      None \<Rightarrow>
                                        Inr \<lparr>dedup_key = key, event_action = ''resolve'',
                                             payload = None\<rparr>
                                    | Some level \<Rightarrow>
                                        Inr \<lparr>dedup_key = key, event_action = ''trigger'',
                                             payload = Some
                                               (trigger_payload fmt gmtime host_axes_items
                                                  metricset_axes_items host_axes metricset_axes
                                                  full_metric_spec metric_config v level
                                                  diag)\<rparr>))))
           | _ \<Rightarrow> Inl AttributeError)"

subsection \<open>The query builder and the tabulator (\<^verbatim>\<open>metrics.py\<close>, lines 110 to 219)\<close>


















subsection \<open>Notions of the specification\<close>




text \<open>The \<^verbatim>\<open>custom_details\<close> of the specification: all the axis pairs merged, and the metric's
  value under the metric's name.\<close>

definition expected_custom_details ::
  "(string \<times> 'n pyval) list \<Rightarrow> (string \<times> 'n pyval) list \<Rightarrow> string \<Rightarrow> 'n
     \<Rightarrow> (string \<rightharpoonup> 'n pyval)" where
  "expected_custom_details host_pairs metricset_pairs metric_name v =
     (dict_update (dict_update Map.empty host_pairs) metricset_pairs)(metric_name \<mapsto> PyNum v)"

text \<open>A timestamp \<^verbatim>\<open>YYYY-MM-DDThh:mm:ssZ\<close>, and one with milliseconds,
  \<^verbatim>\<open>YYYY-MM-DDThh:mm:ss.mmmZ\<close>.\<close>

definition is_digit :: "char \<Rightarrow> bool" where
  "is_digit c = (c \<in> set ''0123456789'')"

definition iso_seconds :: "string \<Rightarrow> bool" where
  "iso_seconds s =
     (length s = 20
      \<and> list_all is_digit (take 4 s) \<and> s ! 4 = CHR ''-''
      \<and> list_all is_digit (take 2 (drop 5 s)) \<and> s ! 7 = CHR ''-''
      \<and> list_all is_digit (take 2 (drop 8 s)) \<and> s ! 10 = CHR ''T''
      \<and> list_all is_digit (take 2 (drop 11 s)) \<and> s ! 13 = CHR '':''
      \<and> list_all is_digit (take 2 (drop 14 s)) \<and> s ! 16 = CHR '':''
      \<and> list_all is_digit (take 2 (drop 17 s)) \<and> s ! 19 = CHR ''Z'')"

definition iso_millis :: "string \<Rightarrow> bool" where
  "iso_millis s =
     (length s = 24
      \<and> list_all is_digit (take 4 s) \<and> s ! 4 = CHR ''-''
      \<and> list_all is_digit (take 2 (drop 5 s)) \<and> s ! 7 = CHR ''-''
      \<and> list_all is_digit (take 2 (drop 8 s)) \<and> s ! 10 = CHR ''T''
      \<and> list_all is_digit (take 2 (drop 11 s)) \<and> s ! 13 = CHR '':''
      \<and> list_all is_digit (take 2 (drop 14 s)) \<and> s ! 16 = CHR '':''
      \<and> list_all is_digit (take 2 (drop 17 s)) \<and> s ! 19 = CHR ''.''
      \<and> list_all is_digit (take 3 (drop 20 s)) \<and> s ! 23 = CHR ''Z'')"

text \<open>The fields of a broken-down time with a year of four digits.\<close>

definition valid_tm :: "struct_time \<Rightarrow> bool" where
  "valid_tm t =
     (1000 \<le> tm_year t \<and> tm_year t \<le> 9999 \<and> 1 \<le> tm_mon t \<and> tm_mon t \<le> 12
      \<and> 1 \<le> tm_mday t \<and> tm_mday t \<le> 31 \<and> tm_hour t \<le> 23 \<and> tm_min t \<le> 59
      \<and> tm_sec t \<le> 61)"

text \<open>The characters a URL takes unescaped (the unreserved characters of RFC 3986), with the
  padding character \<^verbatim>\<open>=\<close> of the URL-safe base64 alphabet; and the characters of standard
  base64.\<close>

definition url_safe :: "char \<Rightarrow> bool" where
  "url_safe c =
     (c \<in> set ''ABCDEFGHIJKLMNOPQRSTUVWXYZabcdefghijklmnopqrstuvwxyz0123456789-_.~='')"

definition b64_char :: "char \<Rightarrow> bool" where
  "b64_char c = (c \<in> set b64_alphabet \<or> c = CHR ''='')"

text \<open>An example: the first entry of \<^verbatim>\<open>CONFIGS\<close> (CPU, one-minute average), a leaf of its table,
  and a time.\<close>

definition cpu_1min :: "string \<rightharpoonup> int metric_config" where
  "cpu_1min = [''.total.pct:avg'' \<mapsto>
      \<lparr>thresholds = ladder4 90 95 97 99,
       message = Some ''High CPU percentage (1-minute average)''\<rparr>]"

definition leaf_path :: "int pyval list" where
  "leaf_path = [PyStr ''us-east-1'', PyStr ''i-001'', PyStr ''.total.pct:avg'']"

definition gmtime_example :: struct_time where
  "gmtime_example =
     \<lparr>tm_year = 2019, tm_mon = 3, tm_mday = 2, tm_hour = 2, tm_min = 0, tm_sec = 3\<rparr>"

section \<open>Properties\<close>

subsection \<open>The threshold evaluator\<close>

lemma thresh_list_ladder4:
  "thresh_list (ladder4 i w e c) =
     [(''info'', i), (''warning'', w), (''error'', e), (''critical'', c)]"
  by (simp add: thresh_list_def ladder4_def LEVELS_def)

text \<open>
  Claim C2.  For a ladder with strictly increasing thresholds \<open>i < w < e < c\<close> at the levels
  info, warning, error and critical, and a value \<open>v\<close> with \<open>e \<le> v < c\<close>, the evaluation returns
  the severity "error" and the diagnostic made of the value, the text \<open>>=\<close> between two spaces,
  and the threshold \<open>e\<close>.
\<close>

theorem error_band_ascending:
  fixes i w e c v :: "'n::linorder"
  assumes "i < w" and "w < e" and "e < c" and "e \<le> v" and "v < c"
  shows "check_val_against_thresh fmt v (ladder4 i w e c)
           = Inr (Some ''error'', Some (fmt v @ '' >= '' @ fmt e))"
proof -
  have si: "strictly_increasing [i, w, e, c]"
    using assms by (simp add: strictly_increasing_def)
  have "i \<le> v" and "w \<le> v"
    using assms by auto
  then have "walk True v [(''info'', i), (''warning'', w), (''error'', e), (''critical'', c)] None
               = Some (''error'', e)"
    using assms by (simp add: not_less)
  then show ?thesis
    using si by (simp add: check_val_against_thresh_def thresh_list_ladder4)
qed

theorem error_band_ascending_witness:
  "check_val_against_thresh str_int 97 (ladder4 90 95 97 99)
     = Inr (Some ''error'', Some ''97 >= 97'')"
proof -
  have "str_int 97 = ''97''"
    by (simp add: str_int_def str_nat.simps digit_char_def)
  then show ?thesis
    using error_band_ascending [of "90::int" 95 97 99 97 str_int] by simp
qed


lemma strictly_increasing_Cons2:
  "strictly_increasing (x # y # L) = (x < y \<and> strictly_increasing (y # L))"
  by (simp add: strictly_increasing_def)

lemma strictly_decreasing_Cons2:
  "strictly_decreasing (x # y # L) = (x > y \<and> strictly_decreasing (y # L))"
  by (simp add: strictly_decreasing_def)

lemma strictly_increasing_sorted_wrt:
  "strictly_increasing L = sorted_wrt (<) L"
proof (induction L rule: induct_list012)
  case (3 x y zs)
  then show ?case by (fastforce simp: strictly_increasing_Cons2)
qed (simp_all add: strictly_increasing_def)

lemma strictly_decreasing_sorted_wrt:
  "strictly_decreasing L = sorted_wrt (>) L"
proof (induction L rule: induct_list012)
  case (3 x y zs)
  then show ?case by (fastforce simp: strictly_decreasing_Cons2)
qed (simp_all add: strictly_decreasing_def)

lemma thresh_list_ranked:
  "sorted_wrt (\<lambda>a b. level_rank (fst a) < level_rank (fst b)) (thresh_list cfg)"
  by (simp add: thresh_list_def LEVELS_def level_rank_def split: option.splits)

lemma walk_acc_or_member:
  "walk si v xs acc = acc \<or> (\<exists>x \<in> set xs. walk si v xs acc = Some x)"
proof (induction xs arbitrary: acc)
  case Nil
  then show ?case by simp
next
  case (Cons x xs)
  obtain level thresh where x: "x = (level, thresh)" by (cases x)
  from Cons [of "Some (level, thresh)"] show ?case
    unfolding x by auto
qed

lemma walk_ascending_mono:
  assumes "v1 \<le> v2"
    and "sorted_wrt (\<lambda>a b. level_rank (fst a) < level_rank (fst b)) xs"
    and "severity_rank (map_option fst acc1) \<le> severity_rank (map_option fst acc2)"
    and "\<forall>x \<in> set xs. severity_rank (map_option fst acc2) \<le> level_rank (fst x)"
  shows "severity_rank (map_option fst (walk True v1 xs acc1))
           \<le> severity_rank (map_option fst (walk True v2 xs acc2))"
  using assms(2-)
proof (induction xs arbitrary: acc1 acc2)
  case Nil
  then show ?case by simp
next
  case (Cons x xs)
  obtain level thresh where x: "x = (level, thresh)" by (cases x)
  have later: "\<forall>y \<in> set xs. level_rank level \<le> level_rank (fst y)"
    using Cons.prems(1) unfolding x by auto
  have sorted: "sorted_wrt (\<lambda>a b. level_rank (fst a) < level_rank (fst b)) xs"
    using Cons.prems(1) by simp
  have acc2: "severity_rank (map_option fst acc2) \<le> level_rank level"
    using Cons.prems(3) unfolding x by simp
  consider (both_stop) "v2 < thresh" | (first_stops) "v1 < thresh" "\<not> v2 < thresh"
    | (none_stops) "\<not> v1 < thresh" "\<not> v2 < thresh"
    using assms(1) by fastforce
  then show ?case
  proof cases
    case both_stop
    then have "v1 < thresh" using assms(1) by simp
    with both_stop show ?thesis
      unfolding x using Cons.prems(2) by simp
  next
    case first_stops
    have "level_rank level
            \<le> severity_rank (map_option fst (walk True v2 xs (Some (level, thresh))))"
      using walk_acc_or_member [of True v2 xs "Some (level, thresh)"] later
      by (auto simp: severity_rank_def)
    with first_stops show ?thesis
      unfolding x using Cons.prems(2) acc2 by simp
  next
    case none_stops
    have "severity_rank (map_option fst (walk True v1 xs (Some (level, thresh))))
            \<le> severity_rank (map_option fst (walk True v2 xs (Some (level, thresh))))"
      using Cons.IH [OF sorted, of "Some (level, thresh)" "Some (level, thresh)"] later
      by (simp add: severity_rank_def)
    with none_stops show ?thesis
      unfolding x by simp
  qed
qed

text \<open>
  Claim C10.  For a ladder whose defined thresholds are strictly increasing (among them the
  empty and the single-threshold ladder), the evaluation returns for both of two values
  \<open>v1 \<le> v2\<close>, and the severity for \<open>v1\<close> is no more severe than the severity for \<open>v2\<close>, in
  the order none, info, warning, error, critical.
\<close>

theorem severity_monotone_ascending:
  fixes v1 v2 :: "'n::linorder"
  assumes "strictly_increasing (map snd (thresh_list thresh_config))" and "v1 \<le> v2"
  shows "\<exists>s1 d1 s2 d2.
           check_val_against_thresh fmt v1 thresh_config = Inr (s1, d1)
         \<and> check_val_against_thresh fmt v2 thresh_config = Inr (s2, d2)
         \<and> severity_rank s1 \<le> severity_rank s2"
proof -
  let ?xs = "thresh_list thresh_config"
  have mono: "severity_rank (map_option fst (walk True v1 ?xs None))
                \<le> severity_rank (map_option fst (walk True v2 ?xs None))"
    using walk_ascending_mono [OF assms(2) thresh_list_ranked, of None None thresh_config]
    by (simp add: severity_rank_def)
  show ?thesis
    using assms(1) mono
    by (auto simp: check_val_against_thresh_def Let_def severity_rank_def
             split: option.splits)
qed


lemma walk_descending_takeWhile:
  "walk False val xs acc =
     (case takeWhile (\<lambda>(level, thresh). \<not> val > thresh) xs of
        [] \<Rightarrow> acc
      | pre \<Rightarrow> Some (last pre))"
proof (induction xs arbitrary: acc)
  case Nil
  then show ?case by simp
next
  case (Cons x xs)
  obtain level thresh where x: "x = (level, thresh)" by (cases x)
  show ?case
    unfolding x by (simp add: Cons.IH split: list.splits)
qed

lemma walk_descending_reaches:
  assumes "sorted_wrt (>) (map snd xs)"
    and "sorted_wrt (\<lambda>a b. level_rank (fst a) < level_rank (fst b)) xs"
    and "(level, thresh) \<in> set xs" and "val \<le> thresh"
  shows "\<exists>s r. walk False val xs acc = Some (s, r) \<and> level_rank level \<le> level_rank s"
  using assms(1-3)
proof (induction xs arbitrary: acc)
  case Nil
  then show ?case by simp
next
  case (Cons x xs)
  obtain l t where x: "x = (l, t)" by (cases x)
  have later: "\<forall>y \<in> set xs. level_rank l \<le> level_rank (fst y)"
    using Cons.prems(2) unfolding x by auto
  show ?case
  proof (cases "(level, thresh) = x")
    case True
    then have here: "l = level" "t = thresh" using x by simp_all
    have "walk False val xs (Some (l, t)) = Some (l, t)
          \<or> (\<exists>y \<in> set xs. walk False val xs (Some (l, t)) = Some y)"
      by (rule walk_acc_or_member)
    then have "\<exists>s r. walk False val xs (Some (l, t)) = Some (s, r)
                 \<and> level_rank level \<le> level_rank s"
      using later here by fastforce
    moreover have "\<not> thresh < val" using assms(4) by simp
    ultimately show ?thesis
      unfolding x using here by simp
  next
    case False
    then have mem: "(level, thresh) \<in> set xs" using Cons.prems(3) by simp
    have "thresh < t"
      using Cons.prems(1) mem unfolding x by force
    then have "\<not> t < val" using assms(4) by simp
    moreover have "\<exists>s r. walk False val xs (Some (l, t)) = Some (s, r)
                     \<and> level_rank level \<le> level_rank s"
      using Cons.IH [of "Some (l, t)"] Cons.prems(1,2) mem by simp
    ultimately show ?thesis
      unfolding x by simp
  qed
qed

lemma decreasing_not_increasing:
  assumes "2 \<le> length L" and "strictly_decreasing L"
  shows "\<not> strictly_increasing L"
proof -
  obtain x y zs where L: "L = x # y # zs"
    using assms(1) by (cases L; cases "tl L") auto
  show ?thesis
    using assms(2) unfolding L
    by (auto simp: strictly_decreasing_Cons2 strictly_increasing_Cons2)
qed

text \<open>
  Claim C3.  For a ladder with at least two defined thresholds that is strictly decreasing in
  the level order, the comparison is reversed: the walk stops at the first level whose
  threshold the value exceeds, so the result is the last level before that stop, with the
  diagnostic made of the value, the text \<open><=\<close> between two spaces, and the matched threshold;
  and a value that is not above the threshold of a level matches that level or a more severe
  one.
\<close>

theorem descending_ladder_reversed:
  fixes val :: "'n::linorder"
  assumes "2 \<le> length (thresh_list thresh_config)"
    and "strictly_decreasing (map snd (thresh_list thresh_config))"
  shows "check_val_against_thresh fmt val thresh_config
           = Inr (case descending_match val (thresh_list thresh_config) of
                    None \<Rightarrow> (None, None)
                  | Some (level, thresh) \<Rightarrow>
                      (Some level, Some (fmt val @ '' <= '' @ fmt thresh)))
       \<and> (\<forall>(level, thresh) \<in> set (thresh_list thresh_config).
            val \<le> thresh \<longrightarrow>
              (\<exists>s d. check_val_against_thresh fmt val thresh_config = Inr (Some s, Some d)
                   \<and> level_rank level \<le> level_rank s))"
proof -
  let ?xs = "thresh_list thresh_config"
  have nonempty: "?xs \<noteq> []" using assms(1) by auto
  have not_si: "\<not> strictly_increasing (map snd ?xs)"
    using decreasing_not_increasing [of "map snd ?xs"] assms by simp
  have unfold: "check_val_against_thresh fmt val thresh_config
                  = (case walk False val ?xs None of
                       None \<Rightarrow> Inr (None, None)
                     | Some (level, rf) \<Rightarrow>
                         Inr (Some level, Some (fmt val @ '' <= '' @ fmt rf)))"
    using nonempty not_si assms(2)
    by (simp add: check_val_against_thresh_def Let_def split: option.splits)
  have first: "check_val_against_thresh fmt val thresh_config
           = Inr (case descending_match val ?xs of
                    None \<Rightarrow> (None, None)
                  | Some (level, thresh) \<Rightarrow>
                      (Some level, Some (fmt val @ '' <= '' @ fmt thresh)))"
    unfolding unfold descending_match_def walk_descending_takeWhile
    by (simp split: list.splits option.splits prod.splits)
  have second: "\<exists>s d. check_val_against_thresh fmt val thresh_config = Inr (Some s, Some d)
                   \<and> level_rank level \<le> level_rank s"
    if mem: "(level, thresh) \<in> set ?xs" and below: "val \<le> thresh" for level thresh
  proof -
    have "sorted_wrt (>) (map snd ?xs)"
      using assms(2) by (simp add: strictly_decreasing_sorted_wrt)
    from walk_descending_reaches [OF this thresh_list_ranked mem below, of None]
    obtain s r where "walk False val ?xs None = Some (s, r)"
      and "level_rank level \<le> level_rank s"
      by blast
    then show ?thesis unfolding unfold by simp
  qed
  show ?thesis using first second by blast
qed

text \<open>
  Claim C6.  The evaluation fails, with the assertion error, exactly when the defined
  thresholds in level order are at least two and neither strictly increasing nor strictly
  decreasing; it returns exactly when they are strictly increasing or strictly decreasing,
  which every ladder of at most one threshold is.
\<close>

theorem assertion_iff_not_monotonic:
  fixes val :: "'n::linorder"
  shows "(check_val_against_thresh fmt val thresh_config = Inl AssertionError)
           = (2 \<le> length (thresh_list thresh_config)
              \<and> \<not> strictly_increasing (map snd (thresh_list thresh_config))
              \<and> \<not> strictly_decreasing (map snd (thresh_list thresh_config)))
       \<and> (\<exists>s d. check_val_against_thresh fmt val thresh_config = Inr (s, d))
           = (strictly_increasing (map snd (thresh_list thresh_config))
              \<or> strictly_decreasing (map snd (thresh_list thresh_config)))
       \<and> (length (thresh_list thresh_config) \<le> 1 \<longrightarrow>
            strictly_increasing (map snd (thresh_list thresh_config))
          \<and> strictly_decreasing (map snd (thresh_list thresh_config)))"
proof -
  let ?xs = "thresh_list thresh_config"
  have short: "strictly_increasing (map snd ?xs) \<and> strictly_decreasing (map snd ?xs)"
    if "length ?xs \<le> 1"
    using that
    by (cases ?xs; cases "tl ?xs")
       (auto simp: strictly_increasing_def strictly_decreasing_def)
  have fails: "(check_val_against_thresh fmt val thresh_config = Inl AssertionError)
           = (2 \<le> length ?xs \<and> \<not> strictly_increasing (map snd ?xs)
              \<and> \<not> strictly_decreasing (map snd ?xs))"
  proof (cases "length ?xs \<le> 1")
    case True
    with short show ?thesis
      by (auto simp: check_val_against_thresh_def Let_def split: option.splits)
  next
    case False
    then have "?xs \<noteq> []" "2 \<le> length ?xs" by auto
    then show ?thesis
      by (auto simp: check_val_against_thresh_def Let_def split: option.splits)
  qed
  have returns: "(\<exists>s d. check_val_against_thresh fmt val thresh_config = Inr (s, d))
           = (strictly_increasing (map snd ?xs) \<or> strictly_decreasing (map snd ?xs))"
  proof (cases "?xs = []")
    case True
    then show ?thesis
      by (simp add: check_val_against_thresh_def strictly_increasing_def)
  next
    case False
    then show ?thesis
      by (auto simp: check_val_against_thresh_def Let_def split: option.splits)
  qed
  show ?thesis using short fails returns by blast
qed

lemma str_int_small:
  "str_int 7 = ''7''" "str_int 10 = ''10''"
  by (simp_all add: str_int_def str_nat.simps digit_char_def)

theorem severity_monotone_ascending_witness:
  "strictly_increasing (map snd (thresh_list (ladder4 (90::int) 95 97 99)))
   \<and> (96::int) \<le> 98
   \<and> (\<exists>s1 d1 s2 d2.
         check_val_against_thresh str_int 96 (ladder4 90 95 97 99) = Inr (s1, d1)
       \<and> check_val_against_thresh str_int 98 (ladder4 90 95 97 99) = Inr (s2, d2)
       \<and> severity_rank s1 \<le> severity_rank s2)"
proof -
  have incr: "strictly_increasing (map snd (thresh_list (ladder4 (90::int) 95 97 99)))"
    by (simp add: thresh_list_ladder4 strictly_increasing_def)
  have le: "(96::int) \<le> 98" by simp
  from severity_monotone_ascending [OF incr le, of str_int] incr le
  show ?thesis by blast
qed

theorem descending_ladder_reversed_witness:
  "2 \<le> length (thresh_list (ladder4 (20::int) 10 5 2))
   \<and> strictly_decreasing (map snd (thresh_list (ladder4 (20::int) 10 5 2)))
   \<and> check_val_against_thresh str_int 7 (ladder4 20 10 5 2)
       = Inr (Some ''warning'', Some ''7 <= 10'')"
proof -
  have len: "2 \<le> length (thresh_list (ladder4 (20::int) 10 5 2))"
    by (simp add: thresh_list_ladder4)
  have decr: "strictly_decreasing (map snd (thresh_list (ladder4 (20::int) 10 5 2)))"
    by (simp add: thresh_list_ladder4 strictly_decreasing_def)
  have "descending_match 7 (thresh_list (ladder4 (20::int) 10 5 2)) = Some (''warning'', 10)"
    by (simp add: thresh_list_ladder4 descending_match_def)
  with descending_ladder_reversed [OF len decr, of str_int 7] len decr
  show ?thesis by (simp add: str_int_small)
qed

theorem assertion_iff_not_monotonic_witness:
  "check_val_against_thresh str_int 96 (ladder4 90 95 93 99) = Inl AssertionError
   \<and> length (thresh_list [''warning'' \<mapsto> (5::int)]) \<le> 1
   \<and> strictly_increasing (map snd (thresh_list [''warning'' \<mapsto> (5::int)]))
   \<and> strictly_decreasing (map snd (thresh_list [''warning'' \<mapsto> (5::int)]))"
proof -
  have bad: "2 \<le> length (thresh_list (ladder4 (90::int) 95 93 99))
             \<and> \<not> strictly_increasing (map snd (thresh_list (ladder4 (90::int) 95 93 99)))
             \<and> \<not> strictly_decreasing (map snd (thresh_list (ladder4 (90::int) 95 93 99)))"
    by (simp add: thresh_list_ladder4 strictly_increasing_def strictly_decreasing_def)
  have single: "length (thresh_list [''warning'' \<mapsto> (5::int)]) \<le> 1"
    by (simp add: thresh_list_def LEVELS_def)
  from assertion_iff_not_monotonic [of str_int 96 "ladder4 90 95 93 99"] bad
    assertion_iff_not_monotonic [of str_int 7 "[''warning'' \<mapsto> (5::int)]"] single
  show ?thesis by blast
qed

subsection \<open>The flattener\<close>








subsection \<open>Events and dedup keys\<close>

lemma digit_char_is_digit: "d < 10 \<Longrightarrow> is_digit (digit_char d)"
  unfolding is_digit_def digit_char_def by (intro nth_mem) simp

lemma str_nat_one:
  assumes "n < 10"
  shows "\<exists>a. str_nat n = [a] \<and> is_digit a"
  using assms by (subst str_nat.simps) (simp add: digit_char_is_digit)

lemma str_nat_two:
  assumes "10 \<le> n" and "n < 100"
  shows "\<exists>a b. str_nat n = [a, b] \<and> is_digit a \<and> is_digit b"
proof -
  have "n div 10 < 10" using assms by arith
  from str_nat_one [OF this] obtain a where "str_nat (n div 10) = [a]" "is_digit a"
    by blast
  then show ?thesis
    using assms by (subst str_nat.simps) (simp add: digit_char_is_digit)
qed

lemma str_nat_three:
  assumes "100 \<le> n" and "n < 1000"
  shows "\<exists>a b c. str_nat n = [a, b, c] \<and> is_digit a \<and> is_digit b \<and> is_digit c"
proof -
  have "10 \<le> n div 10" "n div 10 < 100" using assms by arith+
  from str_nat_two [OF this]
  obtain a b where "str_nat (n div 10) = [a, b]" "is_digit a" "is_digit b"
    by blast
  then show ?thesis
    using assms by (subst str_nat.simps) (simp add: digit_char_is_digit)
qed

lemma str_nat_four:
  assumes "1000 \<le> n" and "n < 10000"
  shows "\<exists>a b c d. str_nat n = [a, b, c, d]
           \<and> is_digit a \<and> is_digit b \<and> is_digit c \<and> is_digit d"
proof -
  have "100 \<le> n div 10" "n div 10 < 1000" using assms by arith+
  from str_nat_three [OF this]
  obtain a b c where "str_nat (n div 10) = [a, b, c]" "is_digit a" "is_digit b" "is_digit c"
    by blast
  then show ?thesis
    using assms by (subst str_nat.simps) (simp add: digit_char_is_digit)
qed

lemma pad2_two:
  assumes "n < 100"
  shows "\<exists>a b. pad2 n = [a, b] \<and> is_digit a \<and> is_digit b"
proof (cases "n < 10")
  case True
  then obtain a where "str_nat n = [a]" "is_digit a"
    using str_nat_one by blast
  then show ?thesis
    using True by (simp add: pad2_def is_digit_def)
next
  case False
  then show ?thesis
    using str_nat_two [of n] assms by (simp add: pad2_def)
qed

lemma strftime_utc_iso_seconds:
  assumes "valid_tm t"
  shows "iso_seconds (strftime_utc t)"
proof -
  obtain y1 y2 y3 y4 where y: "str_nat (tm_year t) = [y1, y2, y3, y4]"
      "is_digit y1" "is_digit y2" "is_digit y3" "is_digit y4"
    using str_nat_four [of "tm_year t"] assms by (auto simp: valid_tm_def)
  obtain m1 m2 where m: "pad2 (tm_mon t) = [m1, m2]" "is_digit m1" "is_digit m2"
    using pad2_two [of "tm_mon t"] assms by (auto simp: valid_tm_def)
  obtain d1 d2 where d: "pad2 (tm_mday t) = [d1, d2]" "is_digit d1" "is_digit d2"
    using pad2_two [of "tm_mday t"] assms by (auto simp: valid_tm_def)
  obtain h1 h2 where h: "pad2 (tm_hour t) = [h1, h2]" "is_digit h1" "is_digit h2"
    using pad2_two [of "tm_hour t"] assms by (auto simp: valid_tm_def)
  obtain n1 n2 where n: "pad2 (tm_min t) = [n1, n2]" "is_digit n1" "is_digit n2"
    using pad2_two [of "tm_min t"] assms by (auto simp: valid_tm_def)
  obtain s1 s2 where s: "pad2 (tm_sec t) = [s1, s2]" "is_digit s1" "is_digit s2"
    using pad2_two [of "tm_sec t"] assms by (auto simp: valid_tm_def)
  show ?thesis
    unfolding strftime_utc_def iso_seconds_def
    by (simp add: y m d h n s)
qed

lemma main_leaf_payload:
  assumes "main_leaf fmt gmtime module metricset axes metric_configs k v = Inr b"
    and "payload b = Some p"
  shows "timestamp p = strftime_utc gmtime"
    and "\<exists>metric_spec. last k = PyStr metric_spec
           \<and> custom_details p = [full module metricset metric_spec \<mapsto> PyNum v]"
  using assms
  by (auto simp: main_leaf_def trigger_payload_def consume_def dict_update_def Let_def
           split: if_splits pyval.splits option.splits sum.splits prod.splits)

lemma sorted_items_perm:
  assumes "mset xs = mset ys"
  shows "sorted_items xs = sorted_items ys"
proof -
  have "set xs = set ys"
    using assms by (rule mset_eq_setD)
  moreover have "sort xs = sort ys"
    using assms by (intro properties_for_sort) simp_all
  ultimately show ?thesis
    by (simp add: sorted_items_def list_all_iff)
qed

lemma main_leaf_key:
  assumes "main_leaf fmt gmtime module metricset axes metric_configs k v = Inr b"
  shows "\<exists>metric_spec. last k = PyStr metric_spec
           \<and> key_of_items fmt
                (zip (map (full module metricset) HOST_AXES) (take (length HOST_AXES) k)
                 @ zip (map (full module metricset) axes) (butlast (drop (length HOST_AXES) k))
                 @ [(full module metricset metric_spec, PyNone)]) = Inr (dedup_key b)"
  using assms
  by (auto simp: main_leaf_def consume_def Let_def
           split: if_splits pyval.splits option.splits sum.splits prod.splits)

lemma check_cpu_96:
  "check_val_against_thresh str_int 96 (ladder4 90 95 97 99)
     = Inr (Some ''warning'', Some ''96 >= 95'')"
  by code_simp

lemma sorted_cpu_items:
  "sorted_items [(''cloud.region'', PyStr ''us-east-1''), (''cloud.instance.id'', PyStr ''i-001''),
                 (''system.cpu.total.pct:avg'', PyNone :: int pyval)]
     = Inr [(''cloud.instance.id'', PyStr ''i-001''), (''cloud.region'', PyStr ''us-east-1''),
            (''system.cpu.total.pct:avg'', PyNone)]"
  by code_simp

lemma main_leaf_cpu:
  "main_leaf str_int t ''system'' ''cpu'' [] cpu_1min leaf_path 96
     = Inr \<lparr>dedup_key = b64encode (sha256 (encode (json_dumps str_int
                [(''cloud.instance.id'', PyStr ''i-001''), (''cloud.region'', PyStr ''us-east-1''),
                 (''system.cpu.total.pct:avg'', PyNone)]))),
            event_action = ''trigger'',
            payload = Some (trigger_payload str_int t [] []
                        [PyStr ''us-east-1'', PyStr ''i-001''] [] ''system.cpu.total.pct:avg''
                        \<lparr>thresholds = ladder4 90 95 97 99,
                         message = Some ''High CPU percentage (1-minute average)''\<rparr>
                        96 ''warning'' (Some ''96 >= 95''))\<rparr>"
  by (simp add: main_leaf_def leaf_path_def cpu_1min_def HOST_AXES_def full_def consume_def
        key_of_items_def check_cpu_96 sorted_cpu_items Let_def)

lemma length_round: "length (round s kw) = 8"
  by (simp add: round_def shift_in_def)

lemma length_foldl_round: "length h = 8 \<Longrightarrow> length (foldl round h kws) = 8"
  by (induction kws arbitrary: h) (simp_all add: length_round)

lemma length_compress: "length h = 8 \<Longrightarrow> length (compress h block) = 8"
  by (simp add: compress_def length_foldl_round)

lemma length_foldl_compress: "length h = 8 \<Longrightarrow> length (foldl compress h blocks) = 8"
  by (induction blocks arbitrary: h) (simp_all add: length_compress)

lemma length_be_bytes: "length (be_bytes n x) = n"
  by (simp add: be_bytes_def)

lemma be_bytes_range: "b \<in> set (be_bytes n x) \<Longrightarrow> 0 \<le> b \<and> b < 256"
  by (auto simp: be_bytes_def)

lemma length_concat_be_bytes: "length (concat (map (be_bytes 4) ws)) = 4 * length ws"
  by (induction ws) (simp_all add: length_be_bytes)

lemma length_sha256: "length (sha256 bs) = 32"
  by (simp add: sha256_def length_concat_be_bytes length_foldl_compress H256_def)

lemma sha256_range: "b \<in> set (sha256 bs) \<Longrightarrow> 0 \<le> b \<and> b < 256"
  by (auto simp: sha256_def dest: be_bytes_range)

lemma length_b64encode: "length (b64encode bs) = 4 * ((length bs + 2) div 3)"
proof (induction bs rule: b64encode.induct)
  case (1 a b c bs)
  have "(5 + length bs) div 3 = Suc (Suc (Suc (length bs)) div 3)"
    by arith
  with 1 show ?case by simp
qed simp_all

lemma b64_alphabet_nth: "0 \<le> i \<Longrightarrow> i < 64 \<Longrightarrow> b64_char (b64_alphabet ! nat i)"
  unfolding b64_char_def
  by (intro disjI1 nth_mem) (simp add: b64_alphabet_def)

lemma byte_div_bounds:
  fixes x :: int
  assumes "0 \<le> x" and "x < 256"
  shows "0 \<le> x div 4" "x div 4 < 64" "0 \<le> x div 16" "x div 16 < 16"
    "0 \<le> x div 64" "x div 64 < 4"
  using assms by simp_all

lemma byte_mod_bounds:
  fixes x :: int
  shows "0 \<le> x mod 4" "x mod 4 < 4" "0 \<le> x mod 16" "x mod 16 < 16"
    "0 \<le> x mod 64" "x mod 64 < 64"
  by simp_all

lemma sextets:
  fixes a b c :: int
  assumes "0 \<le> a" "a < 256" "0 \<le> b" "b < 256" "0 \<le> c" "c < 256"
  shows "0 \<le> (a mod 4) * 16 + b div 16" "(a mod 4) * 16 + b div 16 < 64"
    "0 \<le> (b mod 16) * 4 + c div 64" "(b mod 16) * 4 + c div 64 < 64"
    "0 \<le> (a mod 4) * 16" "(a mod 4) * 16 < 64" "0 \<le> (b mod 16) * 4" "(b mod 16) * 4 < 64"
  using byte_div_bounds [OF assms(3,4)] byte_div_bounds [OF assms(5,6)]
    byte_mod_bounds [of a] byte_mod_bounds [of b]
  by linarith+

lemma sextet_chars:
  fixes a b c :: int
  assumes a: "0 \<le> a" "a < 256" and b: "0 \<le> b" "b < 256" and c: "0 \<le> c" "c < 256"
  shows "b64_char (b64_alphabet ! nat (a div 4))"
    and "b64_char (b64_alphabet ! nat ((a mod 4) * 16 + b div 16))"
    and "b64_char (b64_alphabet ! nat ((b mod 16) * 4 + c div 64))"
    and "b64_char (b64_alphabet ! nat (c mod 64))"
    and "b64_char (b64_alphabet ! nat ((a mod 4) * 16))"
    and "b64_char (b64_alphabet ! nat ((b mod 16) * 4))"
proof -
  show "b64_char (b64_alphabet ! nat (a div 4))"
    by (rule b64_alphabet_nth) (rule byte_div_bounds [OF a])+
  show "b64_char (b64_alphabet ! nat ((a mod 4) * 16 + b div 16))"
    by (rule b64_alphabet_nth) (rule sextets [OF a b c])+
  show "b64_char (b64_alphabet ! nat ((b mod 16) * 4 + c div 64))"
    by (rule b64_alphabet_nth) (rule sextets [OF a b c])+
  show "b64_char (b64_alphabet ! nat (c mod 64))"
    by (rule b64_alphabet_nth) (rule byte_mod_bounds)+
  show "b64_char (b64_alphabet ! nat ((a mod 4) * 16))"
    by (rule b64_alphabet_nth) (rule sextets [OF a b c])+
  show "b64_char (b64_alphabet ! nat ((b mod 16) * 4))"
    by (rule b64_alphabet_nth) (rule sextets [OF a b c])+
qed

lemma b64encode_chars:
  "(\<And>b. b \<in> set bs \<Longrightarrow> 0 \<le> b \<and> b < 256) \<Longrightarrow> list_all b64_char (b64encode bs)"
proof (induction bs rule: b64encode.induct)
  case (1 a b c bs)
  have a: "0 \<le> a" "a < 256" and b: "0 \<le> b" "b < 256" and c: "0 \<le> c" "c < 256"
    using "1.prems" by simp_all
  have "list_all b64_char (b64encode bs)"
    using "1.prems" by (intro "1.IH") simp
  then show ?case
    by (simp add: sextet_chars [OF a b c])
next
  case (2 a b)
  have a: "0 \<le> a" "a < 256" and b: "0 \<le> b" "b < 256"
    using "2.prems" by simp_all
  have "b64_char CHR ''=''" by (simp add: b64_char_def)
  then show ?case
    by (simp add: sextet_chars [OF a b b])
next
  case (3 a)
  have a: "0 \<le> a" "a < 256"
    using "3.prems" by simp_all
  have "b64_char CHR ''=''" by (simp add: b64_char_def)
  then show ?case
    by (simp add: sextet_chars [OF a a a])
next
  case 4
  then show ?case by simp
qed

lemma key_of_items_shape:
  assumes "key_of_items fmt items = Inr key"
  shows "length key = 44 \<and> list_all b64_char key"
proof -
  obtain all_items where "key = b64encode (sha256 (encode (json_dumps fmt all_items)))"
    using assms by (auto simp: key_of_items_def split: sum.splits)
  then show ?thesis
    using b64encode_chars [of "sha256 (encode (json_dumps fmt all_items))"]
    by (simp add: length_b64encode length_sha256 sha256_range)
qed

lemma check_cpu_50:
  "check_val_against_thresh str_int 50 (ladder4 90 95 97 99) = Inr (None, None)"
  by code_simp

lemma main_leaf_cpu_resolve:
  "main_leaf str_int t ''system'' ''cpu'' [] cpu_1min leaf_path 50
     = Inr \<lparr>dedup_key = b64encode (sha256 (encode (json_dumps str_int
                [(''cloud.instance.id'', PyStr ''i-001''), (''cloud.region'', PyStr ''us-east-1''),
                 (''system.cpu.total.pct:avg'', PyNone)]))),
            event_action = ''resolve'', payload = None\<rparr>"
  by (simp add: main_leaf_def leaf_path_def cpu_1min_def HOST_AXES_def full_def consume_def
        key_of_items_def check_cpu_50 sorted_cpu_items Let_def)

lemma key_cpu:
  "b64encode (sha256 (encode (json_dumps str_int
      [(''cloud.instance.id'', PyStr ''i-001''), (''cloud.region'', PyStr ''us-east-1''),
       (''system.cpu.total.pct:avg'', PyNone)])))
     = ''xSEvKg9C/QJ+9uiYSw+4OotlrR9HLR+C5mddFTmbE+8=''"
  by code_simp

text \<open>
  Claim C1 fails on the code.  For the leaf of the example, a trigger event, the
  \<^verbatim>\<open>custom_details\<close> of the payload hold the metric's value only: the two \<^verbatim>\<open>zip\<close> iterators were
  run to their end by \<^verbatim>\<open>sorted(chain(...))\<close> two lines before, and the two \<^verbatim>\<open>update\<close> calls add
  nothing.  The merged mapping of the claim has the axis pairs as well.
\<close>

theorem custom_details_without_axes:
  "map_sum id
     (map_option (\<lambda>p. map (custom_details p)
                         [''cloud.region'', ''cloud.instance.id'', ''system.cpu.total.pct:avg''])
        \<circ> payload)
     (main_leaf str_int gmtime_example ''system'' ''cpu'' [] cpu_1min leaf_path 96)
     = Inr (Some [None, None, Some (PyNum 96)])
   \<and> map (expected_custom_details
            [(''cloud.region'', PyStr ''us-east-1''), (''cloud.instance.id'', PyStr ''i-001'')]
            [] ''system.cpu.total.pct:avg'' (96::int))
         [''cloud.region'', ''cloud.instance.id'', ''system.cpu.total.pct:avg'']
     = [Some (PyStr ''us-east-1''), Some (PyStr ''i-001''), Some (PyNum 96)]"
  by (simp add: main_leaf_cpu trigger_payload_def consume_def dict_update_def
        expected_custom_details_def)

text \<open>
  Claim C4.  The dedup key depends on the axis pairs and the metric name only: two lists of
  axis pairs that are permutations of each other give the same key (or both the same error),
  and two evaluations of the same path under the same module, metricset and axes give the same
  key whatever the metric's value, the time and the thresholds are.
\<close>

theorem dedup_key_order_independent:
  fixes v1 v2 :: "'n::linorder"
  shows "(mset (h1 @ m1) = mset (h2 @ m2) \<longrightarrow>
            key_of_items fmt (h1 @ m1 @ [(metric_name, PyNone)])
              = key_of_items fmt (h2 @ m2 @ [(metric_name, PyNone :: 'n pyval)]))
       \<and> (main_leaf fmt t1 module metricset axes configs1 k v1 = Inr b1
            \<and> main_leaf fmt t2 module metricset axes configs2 k v2 = Inr b2 \<longrightarrow>
          dedup_key b1 = dedup_key b2)"
proof -
  have "key_of_items fmt (h1 @ m1 @ [(metric_name, PyNone)])
          = key_of_items fmt (h2 @ m2 @ [(metric_name, PyNone :: 'n pyval)])"
    if "mset (h1 @ m1) = mset (h2 @ m2)"
  proof -
    have "mset (h1 @ m1 @ [(metric_name, PyNone :: 'n pyval)])
            = mset (h2 @ m2 @ [(metric_name, PyNone)])"
      using that by simp
    from sorted_items_perm [OF this] show ?thesis
      unfolding key_of_items_def by (rule arg_cong)
  qed
  moreover have "dedup_key b1 = dedup_key b2"
    if "main_leaf fmt t1 module metricset axes configs1 k v1 = Inr b1"
      and "main_leaf fmt t2 module metricset axes configs2 k v2 = Inr b2"
    using main_leaf_key [OF that(1)] main_leaf_key [OF that(2)] by auto
  ultimately show ?thesis by blast
qed

theorem dedup_key_order_independent_witness:
  "mset ([(''cloud.region'', PyStr ''us-east-1''), (''cloud.instance.id'', PyStr ''i-001'')] @ [])
     = mset ([(''cloud.instance.id'', PyStr ''i-001''), (''cloud.region'', PyStr ''us-east-1'')]
             @ ([] :: (string \<times> int pyval) list))
   \<and> key_of_items str_int
         ([(''cloud.region'', PyStr ''us-east-1''), (''cloud.instance.id'', PyStr ''i-001'')] @ []
          @ [(''system.cpu.total.pct:avg'', PyNone)])
       = key_of_items str_int
           ([(''cloud.instance.id'', PyStr ''i-001''), (''cloud.region'', PyStr ''us-east-1'')] @ []
            @ [(''system.cpu.total.pct:avg'', PyNone)])
   \<and> (\<exists>b1 b2. main_leaf str_int gmtime_example ''system'' ''cpu'' [] cpu_1min leaf_path 96 = Inr b1
          \<and> main_leaf str_int gmtime_example ''system'' ''cpu'' [] cpu_1min leaf_path 50 = Inr b2
          \<and> dedup_key b1 = dedup_key b2)"
proof -
  let ?r = "(''cloud.region'', PyStr ''us-east-1'' :: int pyval)"
  let ?i = "(''cloud.instance.id'', PyStr ''i-001'' :: int pyval)"
  have perm: "mset ([?r, ?i] @ []) = mset ([?i, ?r] @ [])"
    by simp
  obtain b1 b2 where
    runs: "main_leaf str_int gmtime_example ''system'' ''cpu'' [] cpu_1min leaf_path 96 = Inr b1"
          "main_leaf str_int gmtime_example ''system'' ''cpu'' [] cpu_1min leaf_path 50 = Inr b2"
    using main_leaf_cpu main_leaf_cpu_resolve by blast
  from dedup_key_order_independent
         [of "[?r, ?i]" "[]" "[?i, ?r]" "[]" str_int "''system.cpu.total.pct:avg''"
             gmtime_example "''system''" "''cpu''" "[]" cpu_1min leaf_path 96 b1
             gmtime_example cpu_1min 50 b2]
       perm runs
  show ?thesis by blast
qed

text \<open>
  Claim C8, as amended.  The dedup key of every event is the standard base64 text of the
  SHA-256 digest of the JSON text of the sorted pair list: 44 characters, each a letter, a
  digit, \<open>+\<close>, \<open>/\<close> or the padding \<open>=\<close>.
\<close>

theorem dedup_key_standard_base64:
  fixes v :: "'n::linorder"
  assumes "main_leaf fmt gmtime module metricset axes metric_configs k v = Inr b"
  shows "(\<exists>metric_spec. last k = PyStr metric_spec
            \<and> dedup_key b = b64encode (sha256 (encode (json_dumps fmt (sort
                  (zip (map (full module metricset) HOST_AXES) (take (length HOST_AXES) k)
                   @ zip (map (full module metricset) axes)
                       (butlast (drop (length HOST_AXES) k))
                   @ [(full module metricset metric_spec, PyNone)]))))))
       \<and> length (dedup_key b) = 44 \<and> list_all b64_char (dedup_key b)"
proof -
  obtain metric_spec where spec: "last k = PyStr metric_spec"
    and key: "key_of_items fmt
                (zip (map (full module metricset) HOST_AXES) (take (length HOST_AXES) k)
                 @ zip (map (full module metricset) axes) (butlast (drop (length HOST_AXES) k))
                 @ [(full module metricset metric_spec, PyNone)]) = Inr (dedup_key b)"
    using main_leaf_key [OF assms] by blast
  have "dedup_key b = b64encode (sha256 (encode (json_dumps fmt (sort
          (zip (map (full module metricset) HOST_AXES) (take (length HOST_AXES) k)
           @ zip (map (full module metricset) axes) (butlast (drop (length HOST_AXES) k))
           @ [(full module metricset metric_spec, PyNone)])))))"
    using key by (simp add: key_of_items_def sorted_items_def split: if_splits)
  with spec key_of_items_shape [OF key] show ?thesis by blast
qed

theorem dedup_key_standard_base64_witness:
  "\<exists>b. main_leaf str_int gmtime_example ''system'' ''cpu'' [] cpu_1min leaf_path 96 = Inr b
       \<and> length (dedup_key b) = 44 \<and> list_all b64_char (dedup_key b)"
proof -
  obtain b where
    run: "main_leaf str_int gmtime_example ''system'' ''cpu'' [] cpu_1min leaf_path 96 = Inr b"
    using main_leaf_cpu by blast
  from dedup_key_standard_base64 [OF run] run show ?thesis by blast
qed

text \<open>
  Claim C8 as stated fails: the key of the example holds \<open>/\<close> and \<open>+\<close>, which are not
  URL-safe.
\<close>

theorem dedup_key_not_url_safe:
  "map_sum id dedup_key
     (main_leaf str_int gmtime_example ''system'' ''cpu'' [] cpu_1min leaf_path 96)
     = Inr ''xSEvKg9C/QJ+9uiYSw+4OotlrR9HLR+C5mddFTmbE+8=''
   \<and> \<not> list_all url_safe ''xSEvKg9C/QJ+9uiYSw+4OotlrR9HLR+C5mddFTmbE+8=''"
  by (simp add: main_leaf_cpu key_cpu url_safe_def)

text \<open>
  Claim C9, as amended.  The timestamp of every trigger event is the UTC time in whole
  seconds, of the form \<^verbatim>\<open>YYYY-MM-DDThh:mm:ssZ\<close> (for a year of four digits).
\<close>

theorem timestamp_whole_seconds:
  fixes v :: "'n::linorder"
  assumes "main_leaf fmt gmtime module metricset axes metric_configs k v = Inr b"
    and "payload b = Some p" and "valid_tm gmtime"
  shows "timestamp p = strftime_utc gmtime \<and> iso_seconds (timestamp p)"
  using main_leaf_payload(1) [OF assms(1,2)] strftime_utc_iso_seconds [OF assms(3)] by simp

theorem timestamp_whole_seconds_witness:
  "valid_tm gmtime_example
   \<and> (\<exists>b p. main_leaf str_int gmtime_example ''system'' ''cpu'' [] cpu_1min leaf_path 96 = Inr b
          \<and> payload b = Some p \<and> timestamp p = ''2019-03-02T02:00:03Z''
          \<and> iso_seconds (timestamp p))"
proof -
  have valid: "valid_tm gmtime_example"
    by (simp add: valid_tm_def gmtime_example_def)
  obtain b p where
    run: "main_leaf str_int gmtime_example ''system'' ''cpu'' [] cpu_1min leaf_path 96 = Inr b"
    and p: "payload b = Some p"
    using main_leaf_cpu by auto
  have "strftime_utc gmtime_example = ''2019-03-02T02:00:03Z''"
    by code_simp
  with timestamp_whole_seconds [OF run p valid] valid run p show ?thesis by auto
qed

text \<open>
  Claim C9 as stated fails: the timestamp of the example has no milliseconds.
\<close>

theorem timestamp_without_milliseconds:
  "map_sum id (map_option timestamp \<circ> payload)
     (main_leaf str_int gmtime_example ''system'' ''cpu'' [] cpu_1min leaf_path 96)
     = Inr (Some ''2019-03-02T02:00:03Z'')
   \<and> \<not> iso_millis ''2019-03-02T02:00:03Z''"
proof -
  have "strftime_utc gmtime_example = ''2019-03-02T02:00:03Z''"
    by code_simp
  then show ?thesis
    by (simp add: main_leaf_cpu trigger_payload_def consume_def iso_millis_def)
qed

subsection \<open>The query builder and the tabulator\<close>












end
